theory Spec2Isabelle
  imports Main
begin

section \<open>Errors and Python list indexing\<close>

text \<open>
  The exceptions the two helpers of \<^verbatim>\<open>helpers.py\<close> can raise. \<open>IndexError\<close> is what
  Python's list subscript raises out of range; \<open>ValueError\<close> carries the message
  \<^verbatim>\<open>load_shard_tensor\<close> builds; \<open>DeviceError\<close>, \<open>ShardOpenError\<close> and
  \<open>TensorMissingError\<close> stand for the failures of the safetensors library and the tensor
  runtime under it (a device that is no device name or is not present on the machine, no
  such file, no such tensor in the file).
\<close>

datatype error =
    IndexError
  | ValueError string
  | DeviceError string
  | ShardOpenError string
  | TensorMissingError string

text \<open>
  \<^verbatim>\<open>xs[i]\<close> on a Python list: a negative index counts from the end, and an index outside
  \<open>-len(xs) \<le> i < len(xs)\<close> raises.
\<close>

definition py_index :: "int list \<Rightarrow> int \<Rightarrow> error + int" where
  "py_index xs i =
     (let len = int (length xs); j = (if i < 0 then len + i else i)
      in if 0 \<le> j \<and> j < len then Inr (xs ! nat j) else Inl IndexError)"

section \<open>The layer-window scheduler\<close>

text \<open>
  The \<^verbatim>\<open>while True\<close> loop of \<^verbatim>\<open>layers_to_load_by_memory\<close> (helpers.py, lines 17-24).
  The arguments are the loop's variables at the top of an iteration; the result is the
  value of \<^verbatim>\<open>current_layer\<close> at the \<^verbatim>\<open>break\<close>, or the exception of the subscript.
  The last argument records, in order, every index at which the loop has subscripted
  \<^verbatim>\<open>layer_size_cache\<close>; it does not influence the result.
\<close>

function scan_loop ::
  "int \<Rightarrow> int \<Rightarrow> int \<Rightarrow> int \<Rightarrow> int list \<Rightarrow> int list \<Rightarrow> (error + int) \<times> int list" where
  "scan_loop current_layer free_memory next_layer_size num_layers layer_size_cache reads =
     (let current_layer' = current_layer + 1 in
      if current_layer' \<ge> num_layers then (Inr current_layer', reads)
      else
        let free_memory' = free_memory - next_layer_size;
            reads' = reads @ [current_layer']
        in case py_index layer_size_cache current_layer' of
             Inl e \<Rightarrow> (Inl e, reads')
           | Inr next_layer_size' \<Rightarrow>
               if free_memory' - next_layer_size' < 0 then (Inr current_layer', reads')
               else scan_loop current_layer' free_memory' next_layer_size'
                      num_layers layer_size_cache reads')"
  by pat_completeness auto
termination
  by (relation "measure (\<lambda>(c, f, s, n, xs, rs). nat (n - c))") auto

declare scan_loop.simps [simp del]

text \<open>
  \<^verbatim>\<open>layers_to_load_by_memory\<close> with its trace of subscripts: the first subscript is
  \<^verbatim>\<open>layer_size_cache[start_layer]\<close> (line 16), then the loop, then
  \<^verbatim>\<open>end_layer = current_layer - 1\<close>.
\<close>

definition layers_to_load_traced ::
  "int \<Rightarrow> int \<Rightarrow> int \<Rightarrow> int list \<Rightarrow> (error + int) \<times> int list" where
  "layers_to_load_traced start_layer max_memory num_layers layer_size_cache =
     (case py_index layer_size_cache start_layer of
        Inl e \<Rightarrow> (Inl e, [start_layer])
      | Inr next_layer_size \<Rightarrow>
          (case scan_loop start_layer max_memory next_layer_size num_layers
                  layer_size_cache [start_layer] of
             (Inl e, reads) \<Rightarrow> (Inl e, reads)
           | (Inr current_layer, reads) \<Rightarrow> (Inr (current_layer - 1), reads)))"

definition layers_to_load_by_memory :: "int \<Rightarrow> int \<Rightarrow> int \<Rightarrow> int list \<Rightarrow> error + int" where
  "layers_to_load_by_memory start_layer max_memory num_layers layer_size_cache =
     fst (layers_to_load_traced start_layer max_memory num_layers layer_size_cache)"

text \<open>
  Modelled from the spec: the caller of the scheduler is not among the sources. The spec
  (4.4, step 3) has the caller materialize the layers \<open>[start, current)\<close>, where the
  scheduler returns \<open>current - 1\<close>; \<^verbatim>\<open>test.py\<close> agrees (\<^verbatim>\<open>load_layer_set(1, 2)\<close> yields two
  layers, \<^verbatim>\<open>load_layer_set(0, 15)\<close> the sixteen layers of the 1B model). So the window of
  a returned \<open>end_layer\<close> is the set of layers from \<open>start\<close> to \<open>end_layer\<close> inclusive.
\<close>

definition layer_window :: "int \<Rightarrow> int \<Rightarrow> int set" where
  "layer_window start end_layer = {start ..< end_layer + 1}"

subsection \<open>The scheduler as the specification words it\<close>

text \<open>
  The greedy forward-packing algorithm of the specification (4.4), written from its three
  steps and independent of the code above: the state is the triple \<open>current\<close>, \<open>free\<close>,
  \<open>next_size\<close>; \<open>spec_repeat\<close> is step 2 and yields the state at the stop;
  \<open>spec_window\<close> is steps 1 and 3. The specification reads \<open>sizes[current]\<close> as a plain
  table lookup.
\<close>

record sched_state =
  current :: int
  free :: int
  next_size :: int

function spec_repeat :: "int \<Rightarrow> int list \<Rightarrow> sched_state \<Rightarrow> sched_state" where
  "spec_repeat num_layers sizes st =
     (let st1 = st\<lparr>current := current st + 1\<rparr> in
      if current st1 \<ge> num_layers then st1
      else
        let st2 = st1\<lparr>free := free st1 - next_size st1\<rparr>;
            st3 = st2\<lparr>next_size := sizes ! nat (current st2)\<rparr>
        in if free st3 - next_size st3 < 0 then st3
           else spec_repeat num_layers sizes st3)"
  by pat_completeness auto
termination
  by (relation "measure (\<lambda>(n, xs, st). nat (n - current st))") auto

declare spec_repeat.simps [simp del]

definition spec_start :: "int \<Rightarrow> int \<Rightarrow> int list \<Rightarrow> sched_state" where
  "spec_start start budget sizes =
     \<lparr>current = start, free = budget, next_size = sizes ! nat start\<rparr>"

definition spec_window :: "int \<Rightarrow> int \<Rightarrow> int \<Rightarrow> int list \<Rightarrow> int" where
  "spec_window start budget num_layers sizes =
     current (spec_repeat num_layers sizes (spec_start start budget sizes)) - 1"

section \<open>The tensor loader\<close>

text \<open>
  What \<^verbatim>\<open>load_shard_tensor\<close> touches outside its arguments: the shard files on disk, each
  holding named tensors (a payload and the element type it is stored in), the devices of
  the machine, and the record of the files \<^verbatim>\<open>safe_open\<close> has opened or tried to open.
  The payload type \<open>'v\<close> and the element types \<open>'d\<close> are those of the tensor runtime and
  stay abstract.

  A device string is \<open>Invalid\<close> when the library does not accept it as a device name
  (\<^verbatim>\<open>'bogus'\<close>), \<open>Unavailable\<close> when it names a device the machine does not have
  (\<^verbatim>\<open>'cuda:0'\<close> without a GPU), and \<open>Available\<close> otherwise.
\<close>

datatype device_status = Invalid | Unavailable | Available

record ('v, 'd) tensor =
  payload :: 'v
  dtype :: 'd
  device :: string

record ('v, 'd) shard =
  contents :: "string \<rightharpoonup> ('v \<times> 'd)"
  shard_device :: string

record ('v, 'd) world =
  files :: "string \<rightharpoonup> (string \<rightharpoonup> ('v \<times> 'd))"
  devices :: "string \<Rightarrow> device_status"
  opened :: "string list"

text \<open>\<^verbatim>\<open>os.path.join(a, b)\<close> for two components, on POSIX.\<close>

definition path_join :: "string \<Rightarrow> string \<Rightarrow> string" where
  "path_join a b =
     (if b \<noteq> [] \<and> hd b = CHR ''/'' then b
      else if a = [] \<or> last a = CHR ''/'' then a @ b
      else a @ ''/'' @ b)"

text \<open>
  \<^verbatim>\<open>safe_open(path, framework='pt', device=device)\<close>. The library reads its arguments
  first and raises on a string that is no device name (\<^verbatim>\<open>device bogus is invalid\<close>), before
  it touches the file; then it opens the file, which is recorded, and fails when there is
  no such file.
\<close>

definition safe_open ::
  "string \<Rightarrow> string \<Rightarrow> ('v, 'd) world \<Rightarrow> (error + ('v, 'd) shard) \<times> ('v, 'd) world" where
  "safe_open path dev w =
     (if devices w dev = Invalid then (Inl (DeviceError dev), w)
      else
        let w' = w\<lparr>opened := opened w @ [path]\<rparr>
        in case files w path of
             None \<Rightarrow> (Inl (ShardOpenError path), w')
           | Some c \<Rightarrow> (Inr \<lparr>contents = c, shard_device = dev\<rparr>, w'))"

text \<open>
  \<^verbatim>\<open>shard.get_tensor(name)\<close>: the stored tensor, placed on the device of the handle. It
  fails when the file has no tensor of that name, and when the device of the handle is not
  present on the machine.
\<close>

definition get_tensor ::
  "('v, 'd) world \<Rightarrow> ('v, 'd) shard \<Rightarrow> string \<Rightarrow> error + ('v, 'd) tensor" where
  "get_tensor w sh name =
     (case contents sh name of
        None \<Rightarrow> Inl (TensorMissingError name)
      | Some (v, d) \<Rightarrow>
          if devices w (shard_device sh) = Available
          then Inr \<lparr>payload = v, dtype = d, device = shard_device sh\<rparr>
          else Inl (DeviceError (shard_device sh)))"

text \<open>
  \<^verbatim>\<open>tensor.to(dtype)\<close>: the element type changes and the payload is converted by the
  runtime's cast, a parameter here; the device stays.
\<close>

definition to_dtype ::
  "('d \<Rightarrow> 'd \<Rightarrow> 'v \<Rightarrow> 'v) \<Rightarrow> 'd \<Rightarrow> ('v, 'd) tensor \<Rightarrow> ('v, 'd) tensor" where
  "to_dtype cast d t = t\<lparr>payload := cast (dtype t) d (payload t), dtype := d\<rparr>"

text \<open>
  \<^verbatim>\<open>load_shard_tensor\<close> (helpers.py, lines 28-39). The membership test of line 35 and the
  lookup of line 37 are the two branches of the \<open>case\<close>.
\<close>

definition load_shard_tensor ::
  "('d \<Rightarrow> 'd \<Rightarrow> 'v \<Rightarrow> 'v) \<Rightarrow> (string \<rightharpoonup> string) \<Rightarrow> string \<Rightarrow> string \<Rightarrow> string \<Rightarrow> 'd \<Rightarrow>
     ('v, 'd) world \<Rightarrow> (error + ('v, 'd) tensor) \<times> ('v, 'd) world" where
  "load_shard_tensor cast layer_file_cache model_dir layer_name dev dt w =
     (case layer_file_cache layer_name of
        None \<Rightarrow> (Inl (ValueError (''Could not find layer file for layer '' @ layer_name)), w)
      | Some file \<Rightarrow>
          (case safe_open (path_join model_dir file) dev w of
             (Inl e, w') \<Rightarrow> (Inl e, w')
           | (Inr sh, w') \<Rightarrow>
               (case get_tensor w' sh layer_name of
                  Inl e \<Rightarrow> (Inl e, w')
                | Inr t \<Rightarrow> (Inr (to_dtype cast dt t), w'))))"

section \<open>Properties of the scan loop\<close>

lemma py_index_in_range:
  "0 \<le> i \<Longrightarrow> i < int (length xs) \<Longrightarrow> py_index xs i = Inr (xs ! nat i)"
  by (simp add: py_index_def Let_def)

text \<open>The loop stops strictly after the layer it started at.\<close>

lemma scan_loop_lower:
  "fst (scan_loop c f s n xs rs) = Inr r \<Longrightarrow> c + 1 \<le> r"
proof (induction c f s n xs rs rule: scan_loop.induct)
  case (1 c f s n xs rs)
  from "1.prems" show ?case
    apply (subst (asm) scan_loop.simps)
    apply (auto simp: Let_def split: if_splits sum.splits dest!: "1.IH"[rotated -1])
    done
qed

text \<open>Started below the layer count, it stops at the layer count at the latest.\<close>

lemma scan_loop_upper:
  "c < n \<Longrightarrow> fst (scan_loop c f s n xs rs) = Inr r \<Longrightarrow> r \<le> n"
proof (induction c f s n xs rs rule: scan_loop.induct)
  case (1 c f s n xs rs)
  from "1.prems" show ?case
    apply (subst (asm) scan_loop.simps)
    apply (auto simp: Let_def split: if_splits sum.splits)
    using "1.IH" apply fastforce
    done
qed

text \<open>With a size table covering all layers, no subscript of the loop raises.\<close>

lemma scan_loop_total:
  "0 \<le> c + 1 \<Longrightarrow> n \<le> int (length xs) \<Longrightarrow> \<exists>r. fst (scan_loop c f s n xs rs) = Inr r"
proof (induction c f s n xs rs rule: scan_loop.induct)
  case (1 c f s n xs rs)
  show ?case
  proof (cases "c + 1 \<ge> n")
    case True
    then show ?thesis by (subst scan_loop.simps) (simp add: Let_def)
  next
    case False
    with "1.prems" have ix: "py_index xs (c + 1) = Inr (xs ! nat (c + 1))"
      by (intro py_index_in_range) auto
    show ?thesis
    proof (cases "f - s - xs ! nat (c + 1) < 0")
      case True
      with False ix show ?thesis by (subst scan_loop.simps) (simp add: Let_def)
    next
      case stay: False
      have "\<exists>r. fst (scan_loop (c + 1) (f - s) (xs ! nat (c + 1)) n xs (rs @ [c + 1])) = Inr r"
        using False ix stay "1.prems" by (intro "1.IH") auto
      with False ix stay show ?thesis by (subst scan_loop.simps) (simp add: Let_def)
    qed
  qed
qed

text \<open>Every subscript of the loop is at a layer after the start and below the layer count.\<close>

lemma scan_loop_reads:
  "\<exists>ks. snd (scan_loop c f s n xs rs) = rs @ ks \<and> (\<forall>k \<in> set ks. c < k \<and> k < n)"
proof (induction c f s n xs rs rule: scan_loop.induct)
  case (1 c f s n xs rs)
  show ?case
  proof (cases "c + 1 \<ge> n")
    case True
    then show ?thesis by (subst scan_loop.simps) (simp add: Let_def)
  next
    case False
    show ?thesis
    proof (cases "py_index xs (c + 1)")
      case (Inl e)
      with False show ?thesis by (subst scan_loop.simps) (simp add: Let_def)
    next
      case (Inr v)
      show ?thesis
      proof (cases "f - s - v < 0")
        case True
        with False Inr show ?thesis by (subst scan_loop.simps) (simp add: Let_def)
      next
        case stay: False
        obtain ks where ks:
          "snd (scan_loop (c + 1) (f - s) v n xs (rs @ [c + 1])) = (rs @ [c + 1]) @ ks"
          "\<forall>k \<in> set ks. c + 1 < k \<and> k < n"
          using "1.IH"[OF refl _ refl refl Inr] False stay by auto
        have "snd (scan_loop c f s n xs rs) = rs @ ((c + 1) # ks)"
          using False Inr stay ks(1) by (subst scan_loop.simps) (simp add: Let_def)
        moreover have "\<forall>k \<in> set ((c + 1) # ks). c < k \<and> k < n"
          using ks(2) False by auto
        ultimately show ?thesis by blast
      qed
    qed
  qed
qed

text \<open>A smaller budget stops the loop no later than a larger one.\<close>

lemma scan_loop_mono:
  "b1 \<le> b2 \<Longrightarrow> fst (scan_loop c b2 s n xs rs2) = Inr r2 \<Longrightarrow>
     \<exists>r1. fst (scan_loop c b1 s n xs rs1) = Inr r1 \<and> r1 \<le> r2"
proof (induction c b2 s n xs rs2 arbitrary: b1 rs1 rule: scan_loop.induct)
  case (1 c b2 s n xs rs2)
  show ?case
  proof (cases "c + 1 \<ge> n")
    case True
    with "1.prems" show ?thesis
      by (subst scan_loop.simps, subst (asm) scan_loop.simps) (simp add: Let_def)
  next
    case False
    show ?thesis
    proof (cases "py_index xs (c + 1)")
      case (Inl e)
      with False "1.prems"(2) show ?thesis
        by (subst (asm) scan_loop.simps) (simp add: Let_def)
    next
      case (Inr v)
      show ?thesis
      proof (cases "b1 - s - v < 0")
        case True
        have "fst (scan_loop c b1 s n xs rs1) = Inr (c + 1)"
          using False Inr True by (subst scan_loop.simps) (simp add: Let_def)
        moreover have "c + 1 \<le> r2"
          using "1.prems"(2) by (rule scan_loop_lower)
        ultimately show ?thesis by simp
      next
        case stay: False
        with "1.prems"(1) have stay2: "\<not> b2 - s - v < 0" by simp
        have "fst (scan_loop (c + 1) (b2 - s) v n xs (rs2 @ [c + 1])) = Inr r2"
          using "1.prems"(2) False Inr stay2
          by (subst (asm) scan_loop.simps) (simp add: Let_def)
        then obtain r1 where
          "fst (scan_loop (c + 1) (b1 - s) v n xs (rs1 @ [c + 1])) = Inr r1" "r1 \<le> r2"
          using "1.IH"[OF refl _ refl refl Inr, of "b1 - s" "rs1 @ [c + 1]"]
            False stay2 "1.prems"(1) by auto
        then show ?thesis
          using False Inr stay by (subst scan_loop.simps) (simp add: Let_def)
      qed
    qed
  qed
qed

text \<open>On a size table covering all layers the loop of the code stops where step 2 of the
  specification stops.\<close>

lemma scan_loop_refines:
  "0 \<le> c + 1 \<Longrightarrow> n \<le> int (length xs) \<Longrightarrow>
     fst (scan_loop c f s n xs rs) =
       Inr (current (spec_repeat n xs \<lparr>current = c, free = f, next_size = s\<rparr>))"
proof (induction c f s n xs rs rule: scan_loop.induct)
  case (1 c f s n xs rs)
  show ?case
  proof (cases "c + 1 \<ge> n")
    case True
    then show ?thesis
      by (subst scan_loop.simps, subst spec_repeat.simps) (simp add: Let_def)
  next
    case False
    with "1.prems" have ix: "py_index xs (c + 1) = Inr (xs ! nat (c + 1))"
      by (intro py_index_in_range) auto
    show ?thesis
    proof (cases "f - s - xs ! nat (c + 1) < 0")
      case True
      with False ix show ?thesis
        by (subst scan_loop.simps, subst spec_repeat.simps) (simp add: Let_def)
    next
      case stay: False
      have "fst (scan_loop (c + 1) (f - s) (xs ! nat (c + 1)) n xs (rs @ [c + 1])) =
        Inr (current (spec_repeat n xs
               \<lparr>current = c + 1, free = f - s, next_size = xs ! nat (c + 1)\<rparr>))"
        using False ix stay "1.prems" by (intro "1.IH") auto
      with False ix stay show ?thesis
        by (subst scan_loop.simps, subst spec_repeat.simps) (simp add: Let_def)
    qed
  qed
qed

section \<open>Properties of the scheduler\<close>

text \<open>The function returns \<open>r\<close> exactly when its loop stops at \<open>r + 1\<close>.\<close>

lemma layers_to_load_Inr_iff:
  "py_index xs start = Inr s \<Longrightarrow>
     layers_to_load_by_memory start b n xs = Inr r \<longleftrightarrow>
       fst (scan_loop start b s n xs [start]) = Inr (r + 1)"
  by (auto simp: layers_to_load_by_memory_def layers_to_load_traced_def
      split: prod.splits sum.splits)

lemma layers_to_load_reads:
  "py_index xs start = Inr s \<Longrightarrow>
     snd (layers_to_load_traced start b n xs) = snd (scan_loop start b s n xs [start])"
  by (auto simp: layers_to_load_traced_def split: prod.splits sum.splits)

lemma layers_to_load_returns:
  assumes "0 \<le> start" "start < n" "n \<le> int (length sizes)"
  shows "\<exists>r. layers_to_load_by_memory start budget n sizes = Inr r"
proof -
  from assms have ix: "py_index sizes start = Inr (sizes ! nat start)"
    by (intro py_index_in_range) auto
  obtain c where "fst (scan_loop start budget (sizes ! nat start) n sizes [start]) = Inr c"
    using scan_loop_total[of start n sizes] assms by fastforce
  then have "layers_to_load_by_memory start budget n sizes = Inr (c - 1)"
    by (simp add: layers_to_load_Inr_iff[OF ix])
  then show ?thesis ..
qed

lemma layer_window_single: "layer_window s s = {s}"
  by (auto simp: layer_window_def)

text \<open>
  Claim C1. For a start layer \<open>0 \<le> start < num_layers\<close> and a size table covering all
  layers, \<^verbatim>\<open>layers_to_load_by_memory\<close> computes what the three steps of the specification
  compute: it returns \<open>current - 1\<close> for the \<open>current\<close> at which step 2 stops, and the
  window of that result is the half-open range \<open>[start, current)\<close>.
\<close>

theorem scheduler_refines_spec:
  assumes "0 \<le> start" "start < n" "n \<le> int (length sizes)"
  shows "layers_to_load_by_memory start budget n sizes =
           Inr (spec_window start budget n sizes) \<and>
         layer_window start (spec_window start budget n sizes) =
           {start ..< current (spec_repeat n sizes (spec_start start budget sizes))}"
proof -
  from assms have ix: "py_index sizes start = Inr (sizes ! nat start)"
    by (intro py_index_in_range) auto
  have "fst (scan_loop start budget (sizes ! nat start) n sizes [start]) =
      Inr (current (spec_repeat n sizes (spec_start start budget sizes)))"
    unfolding spec_start_def using assms by (intro scan_loop_refines) auto
  then show ?thesis
    by (simp add: layers_to_load_Inr_iff[OF ix] spec_window_def layer_window_def)
qed

theorem scheduler_refines_spec_witness:
  "(0::int) \<le> 0 \<and> (0::int) < 16 \<and> 16 \<le> int (length (replicate 16 (100::int))) \<and>
   layers_to_load_by_memory 0 250 16 (replicate 16 100) =
     Inr (spec_window 0 250 16 (replicate 16 100))"
  using scheduler_refines_spec[of 0 16 "replicate 16 100" 250] by simp

text \<open>
  Claim C2. Scenario A: sixteen layers of size 100, start 0, budget 250. The scheduler
  returns 1, and the window of that result holds layer 0 and layer 1 and nothing else.
\<close>

theorem scenario_A_window:
  "layers_to_load_by_memory 0 250 16 (replicate 16 100) = Inr 1 \<and>
   layer_window 0 1 = {0, 1}"
  by code_simp

text \<open>
  A budget of 50 cannot hold the first of sixteen layers of size 100, and the scheduler
  still returns the start layer: its window is the one layer 0, not an empty range. A
  budget of 150, which does hold the first layer, gives the same result, so the result
  does not tell the two apart.
\<close>

theorem budget_too_small_counterexample:
  "(50::int) < replicate 16 100 ! nat 0 \<and>
   layers_to_load_by_memory 0 50 16 (replicate 16 100) = Inr 0 \<and>
   \<not> card (layer_window 0 0) \<le> 0 \<and>
   replicate 16 100 ! nat 0 \<le> (150::int) \<and>
   layers_to_load_by_memory 0 150 16 (replicate 16 100) = Inr 0"
  by code_simp

text \<open>
  Claim C3, as amended. When the budget is below \<open>sizes[start]\<close>, for a valid start layer
  and a table of non-negative sizes covering all layers, the scheduler has no special
  case: it returns \<open>start\<close>, and the window is the single layer \<open>start\<close>.
\<close>

theorem budget_too_small_returns_start:
  assumes "0 \<le> start" "start < n" "n \<le> int (length sizes)"
    and "\<forall>s \<in> set sizes. 0 \<le> s" and "budget < sizes ! nat start"
  shows "layers_to_load_by_memory start budget n sizes = Inr start \<and>
         layer_window start start = {start}"
proof -
  from assms have ix: "py_index sizes start = Inr (sizes ! nat start)"
    by (intro py_index_in_range) auto
  have "fst (scan_loop start budget (sizes ! nat start) n sizes [start]) = Inr (start + 1)"
  proof (cases "start + 1 \<ge> n")
    case True
    then show ?thesis by (subst scan_loop.simps) (simp add: Let_def)
  next
    case False
    with assms have ix': "py_index sizes (start + 1) = Inr (sizes ! nat (start + 1))"
      by (intro py_index_in_range) auto
    from False assms have "sizes ! nat (start + 1) \<in> set sizes"
      by (intro nth_mem) auto
    with assms(4) have "0 \<le> sizes ! nat (start + 1)" by blast
    with assms(5) have "budget - sizes ! nat start - sizes ! nat (start + 1) < 0" by simp
    with False ix' show ?thesis by (subst scan_loop.simps) (simp add: Let_def)
  qed
  then show ?thesis
    by (simp add: layers_to_load_Inr_iff[OF ix] layer_window_single)
qed

theorem budget_too_small_returns_start_witness:
  "(0::int) \<le> 0 \<and> (0::int) < 3 \<and> 3 \<le> int (length [100, 100, 100 :: int]) \<and>
   (50::int) < [100, 100, 100] ! nat 0 \<and>
   layers_to_load_by_memory 0 50 3 [100, 100, 100] = Inr 0 \<and> layer_window 0 0 = {0}"
  using budget_too_small_returns_start[of 0 3 "[100, 100, 100]" 50]
  by (simp add: layer_window_single)

text \<open>
  Claim C4. For a fixed size table, layer count and start layer, the result is monotone in
  the budget: if the call with the larger budget returns, the call with the smaller one
  returns too, with a result that is not larger and a window contained in the other
  window; and on a valid start layer and a table covering all layers both calls return.
\<close>

theorem scheduler_monotone_in_budget:
  assumes "b1 \<le> b2"
  shows "(\<forall>r2. layers_to_load_by_memory start b2 n sizes = Inr r2 \<longrightarrow>
            (\<exists>r1. layers_to_load_by_memory start b1 n sizes = Inr r1 \<and> r1 \<le> r2 \<and>
                  layer_window start r1 \<subseteq> layer_window start r2)) \<and>
         (0 \<le> start \<and> start < n \<and> n \<le> int (length sizes) \<longrightarrow>
            (\<exists>r1 r2. layers_to_load_by_memory start b1 n sizes = Inr r1 \<and>
                     layers_to_load_by_memory start b2 n sizes = Inr r2 \<and> r1 \<le> r2))"
proof -
  have part: "\<exists>r1. layers_to_load_by_memory start b1 n sizes = Inr r1 \<and> r1 \<le> r2 \<and>
                  layer_window start r1 \<subseteq> layer_window start r2"
    if r2: "layers_to_load_by_memory start b2 n sizes = Inr r2" for r2
  proof (cases "py_index sizes start")
    case (Inl e)
    with r2 show ?thesis
      by (simp add: layers_to_load_by_memory_def layers_to_load_traced_def)
  next
    case (Inr s)
    from r2 have "fst (scan_loop start b2 s n sizes [start]) = Inr (r2 + 1)"
      by (simp add: layers_to_load_Inr_iff[OF Inr])
    with assms obtain c where
      c: "fst (scan_loop start b1 s n sizes [start]) = Inr c" "c \<le> r2 + 1"
      using scan_loop_mono by blast
    then have "layers_to_load_by_memory start b1 n sizes = Inr (c - 1)"
      by (simp add: layers_to_load_Inr_iff[OF Inr])
    with c(2) show ?thesis by (auto simp: layer_window_def)
  qed
  have tot: "\<exists>r1 r2. layers_to_load_by_memory start b1 n sizes = Inr r1 \<and>
                     layers_to_load_by_memory start b2 n sizes = Inr r2 \<and> r1 \<le> r2"
    if v: "0 \<le> start \<and> start < n \<and> n \<le> int (length sizes)"
  proof -
    obtain r2 where "layers_to_load_by_memory start b2 n sizes = Inr r2"
      using layers_to_load_returns[of start n sizes b2] v by blast
    with part show ?thesis by blast
  qed
  from part tot show ?thesis by blast
qed

theorem scheduler_monotone_in_budget_witness:
  "(150::int) \<le> 250 \<and> (0::int) \<le> 0 \<and> (0::int) < 3 \<and>
   3 \<le> int (length [100, 100, 100 :: int]) \<and>
   layers_to_load_by_memory 0 150 3 [100, 100, 100] = Inr 0 \<and>
   layers_to_load_by_memory 0 250 3 [100, 100, 100] = Inr 1 \<and>
   layer_window 0 0 \<subseteq> layer_window 0 1"
proof -
  have a: "layers_to_load_by_memory 0 150 3 [100, 100, 100] = Inr 0" by code_simp
  have b: "layers_to_load_by_memory 0 250 3 [100, 100, 100] = Inr 1" by code_simp
  show ?thesis
    using scheduler_monotone_in_budget[of 150 250 0 3 "[100, 100, 100]"] a b by simp
qed

text \<open>
  Claim C5. When the budget holds \<open>sizes[start]\<close>, for \<open>0 \<le> start < num_layers\<close>, every
  window \<open>[start, end)\<close> the scheduler produces satisfies \<open>start < end \<le> num_layers\<close>, where
  \<open>end\<close> is one past the returned layer; and on a table covering all layers a window is
  produced.
\<close>

theorem window_bounds:
  assumes "0 \<le> start" "start < n" "start < int (length sizes)"
    and "sizes ! nat start \<le> budget"
  shows "(\<forall>e. layers_to_load_by_memory start budget n sizes = Inr e \<longrightarrow>
            layer_window start e = {start ..< e + 1} \<and> start < e + 1 \<and> e + 1 \<le> n) \<and>
         (n \<le> int (length sizes) \<longrightarrow>
            (\<exists>e. layers_to_load_by_memory start budget n sizes = Inr e))"
proof -
  from assms have ix: "py_index sizes start = Inr (sizes ! nat start)"
    by (intro py_index_in_range) auto
  have "start < e + 1 \<and> e + 1 \<le> n"
    if "layers_to_load_by_memory start budget n sizes = Inr e" for e
  proof -
    from that have
      c: "fst (scan_loop start budget (sizes ! nat start) n sizes [start]) = Inr (e + 1)"
      by (simp add: layers_to_load_Inr_iff[OF ix])
    have "start + 1 \<le> e + 1" using c by (rule scan_loop_lower)
    moreover have "e + 1 \<le> n" using assms(2) c by (rule scan_loop_upper)
    ultimately show ?thesis by simp
  qed
  moreover have "\<exists>e. layers_to_load_by_memory start budget n sizes = Inr e"
    if "n \<le> int (length sizes)"
    using that assms by (intro layers_to_load_returns) auto
  ultimately show ?thesis by (simp add: layer_window_def)
qed

theorem window_bounds_witness:
  "(0::int) \<le> 0 \<and> (0::int) < 3 \<and> (0::int) < int (length [100, 100, 100 :: int]) \<and>
   [100, 100, 100] ! nat 0 \<le> (250::int) \<and> 3 \<le> int (length [100, 100, 100 :: int]) \<and>
   layers_to_load_by_memory 0 250 3 [100, 100, 100] = Inr 1 \<and>
   layer_window 0 1 = {0 ..< 1 + 1} \<and> (0::int) < 1 + 1 \<and> (1::int) + 1 \<le> 3"
proof -
  have b: "layers_to_load_by_memory 0 250 3 [100, 100, 100] = Inr 1" by code_simp
  show ?thesis using window_bounds[of 0 3 "[100, 100, 100]" 250] b by simp
qed

text \<open>
  Claim C8. For \<open>0 \<le> start < num_layers \<le> len(sizes)\<close> and any budget, negative ones
  included, the function returns a layer between \<open>start\<close> and \<open>num_layers - 1\<close>.
\<close>

theorem end_layer_in_range:
  assumes "0 \<le> start" "start < n" "n \<le> int (length sizes)"
  shows "\<exists>r. layers_to_load_by_memory start budget n sizes = Inr r \<and>
             start \<le> r \<and> r \<le> n - 1"
proof -
  from assms have ix: "py_index sizes start = Inr (sizes ! nat start)"
    by (intro py_index_in_range) auto
  obtain c where c: "fst (scan_loop start budget (sizes ! nat start) n sizes [start]) = Inr c"
    using scan_loop_total[of start n sizes] assms by fastforce
  have "start + 1 \<le> c" using c by (rule scan_loop_lower)
  moreover have "c \<le> n" using assms(2) c by (rule scan_loop_upper)
  moreover have "layers_to_load_by_memory start budget n sizes = Inr (c - 1)"
    using c by (simp add: layers_to_load_Inr_iff[OF ix])
  ultimately show ?thesis by simp
qed

theorem end_layer_in_range_witness:
  "(0::int) \<le> 2 \<and> (2::int) < 4 \<and> 4 \<le> int (length [7, 5, 3, 9 :: int]) \<and>
   (\<exists>r. layers_to_load_by_memory 2 (- 1) 4 [7, 5, 3, 9] = Inr r \<and> 2 \<le> r \<and> r \<le> 4 - 1)"
  using end_layer_in_range[of 2 4 "[7, 5, 3, 9]" "- 1"] by simp

text \<open>
  Claim C9. Started at the last layer, \<open>start = num_layers - 1\<close>, the function returns
  \<open>start\<close> whatever the budget: the loop leaves at its first test, and the only subscript
  of the whole call is the one at \<open>start\<close> before the loop.
\<close>

theorem last_layer_always_admitted:
  assumes "0 < n" "n \<le> int (length sizes)"
  shows "layers_to_load_by_memory (n - 1) budget n sizes = Inr (n - 1) \<and>
         layers_to_load_traced (n - 1) budget n sizes = (Inr (n - 1), [n - 1])"
proof -
  from assms have ix: "py_index sizes (n - 1) = Inr (sizes ! nat (n - 1))"
    by (intro py_index_in_range) auto
  have "scan_loop (n - 1) budget (sizes ! nat (n - 1)) n sizes [n - 1] = (Inr n, [n - 1])"
    by (subst scan_loop.simps) (simp add: Let_def)
  with ix show ?thesis
    by (simp add: layers_to_load_by_memory_def layers_to_load_traced_def)
qed

theorem last_layer_always_admitted_witness:
  "(0::int) < 3 \<and> 3 \<le> int (length [100, 100, 100 :: int]) \<and>
   layers_to_load_by_memory (3 - 1) 0 3 [100, 100, 100] = Inr (3 - 1)"
  using last_layer_always_admitted[of 3 "[100, 100, 100]" 0] by simp

text \<open>
  Claim C10. Under \<open>0 \<le> start < num_layers \<le> len(sizes)\<close> the function returns a layer
  (the loop ends, by the measure \<open>num_layers - current\<close> of its definition, and nothing
  raises), and every subscript it makes is at an index \<open>k\<close> with \<open>start \<le> k < num_layers\<close>,
  which is in range.
\<close>

theorem scheduler_total_and_in_range:
  assumes "0 \<le> start" "start < n" "n \<le> int (length sizes)"
  shows "\<exists>r reads. layers_to_load_traced start budget n sizes = (Inr r, reads) \<and>
           (\<forall>k \<in> set reads. start \<le> k \<and> k < n \<and> py_index sizes k = Inr (sizes ! nat k))"
proof -
  from assms have ix: "py_index sizes start = Inr (sizes ! nat start)"
    by (intro py_index_in_range) auto
  obtain r where r: "layers_to_load_by_memory start budget n sizes = Inr r"
    using layers_to_load_returns[OF assms] by blast
  obtain ks where ks:
    "snd (scan_loop start budget (sizes ! nat start) n sizes [start]) = [start] @ ks"
    "\<forall>k \<in> set ks. start < k \<and> k < n"
    using scan_loop_reads by blast
  have rd: "snd (layers_to_load_traced start budget n sizes) = start # ks"
    using ks(1) by (simp add: layers_to_load_reads[OF ix])
  have "\<forall>k \<in> set (start # ks). start \<le> k \<and> k < n \<and> py_index sizes k = Inr (sizes ! nat k)"
  proof
    fix k assume "k \<in> set (start # ks)"
    with ks(2) assms have "start \<le> k \<and> k < n" by auto
    moreover with assms have "py_index sizes k = Inr (sizes ! nat k)"
      by (intro py_index_in_range) auto
    ultimately show "start \<le> k \<and> k < n \<and> py_index sizes k = Inr (sizes ! nat k)" by simp
  qed
  moreover have "layers_to_load_traced start budget n sizes = (Inr r, start # ks)"
    using r rd by (simp add: layers_to_load_by_memory_def prod_eq_iff)
  ultimately show ?thesis by blast
qed

theorem scheduler_total_and_in_range_witness:
  "(0::int) \<le> 0 \<and> (0::int) < 3 \<and> 3 \<le> int (length [100, 100, 100 :: int]) \<and>
   layers_to_load_traced 0 250 3 [100, 100, 100] = (Inr 1, [0, 1, 2])"
proof -
  have b: "layers_to_load_traced 0 250 3 [100, 100, 100] = (Inr 1, [0, 1, 2])" by code_simp
  show ?thesis
    using scheduler_total_and_in_range[of 0 3 "[100, 100, 100]" 250] b by simp
qed

section \<open>Properties of the tensor loader\<close>

text \<open>
  Claim C6. For a tensor name that is not a key of the layer-file index,
  \<^verbatim>\<open>load_shard_tensor\<close> fails with the \<open>ValueError\<close> of line 36 and leaves the world as it
  was: no path has been passed to \<^verbatim>\<open>safe_open\<close> and the files are the same.
\<close>

theorem unknown_tensor_opens_nothing:
  assumes "layer_name \<notin> dom layer_file_cache"
  shows "load_shard_tensor cast layer_file_cache model_dir layer_name dev dt w =
           (Inl (ValueError (''Could not find layer file for layer '' @ layer_name)), w) \<and>
         opened (snd (load_shard_tensor cast layer_file_cache model_dir layer_name dev dt w)) =
           opened w \<and>
         files (snd (load_shard_tensor cast layer_file_cache model_dir layer_name dev dt w)) =
           files w"
  using assms by (simp add: load_shard_tensor_def domIff)

theorem unknown_tensor_opens_nothing_witness:
  "load_shard_tensor (\<lambda>_ _ v. v) [''model.norm.weight'' \<mapsto> ''model-00001.safetensors'']
      ''models/m'' ''bad_layer'' ''cpu'' ''float16''
      \<lparr>files = [''models/m/model-00001.safetensors'' \<mapsto>
                  [''model.norm.weight'' \<mapsto> (7::nat, ''float32'')]],
       devices = (\<lambda>d. if d = ''cpu'' then Available else Invalid),
       opened = []\<rparr>
   = (Inl (ValueError ''Could not find layer file for layer bad_layer''),
      \<lparr>files = [''models/m/model-00001.safetensors'' \<mapsto>
                  [''model.norm.weight'' \<mapsto> (7::nat, ''float32'')]],
       devices = (\<lambda>d. if d = ''cpu'' then Available else Invalid),
       opened = []\<rparr>)"
  using unknown_tensor_opens_nothing[of "''bad_layer''"
      "[''model.norm.weight'' \<mapsto> ''model-00001.safetensors'']"
      "\<lambda>_ _ v. v" "''models/m''" "''cpu''" "''float16''"
      "\<lparr>files = [''models/m/model-00001.safetensors'' \<mapsto>
                  [''model.norm.weight'' \<mapsto> (7::nat, ''float32'')]],
       devices = (\<lambda>d. if d = ''cpu'' then Available else Invalid),
       opened = []\<rparr>"]
  by simp

text \<open>The error paths of a lookup that succeeds: a string that is no device name raises
  before any file is opened; a missing file, a file without the tensor and a device the
  machine does not have raise after the one file has been tried.\<close>

lemma invalid_device_opens_nothing:
  assumes "layer_file_cache layer_name = Some file" and "devices w dev = Invalid"
  shows "load_shard_tensor cast layer_file_cache model_dir layer_name dev dt w =
           (Inl (DeviceError dev), w)"
  using assms by (simp add: load_shard_tensor_def safe_open_def)

lemma missing_shard_file_raises:
  assumes "layer_file_cache layer_name = Some file" and "devices w dev \<noteq> Invalid"
    and "files w (path_join model_dir file) = None"
  shows "fst (load_shard_tensor cast layer_file_cache model_dir layer_name dev dt w) =
           Inl (ShardOpenError (path_join model_dir file))"
  using assms by (simp add: load_shard_tensor_def safe_open_def Let_def)

lemma missing_tensor_raises:
  assumes "layer_file_cache layer_name = Some file" and "devices w dev \<noteq> Invalid"
    and "files w (path_join model_dir file) = Some c" and "c layer_name = None"
  shows "fst (load_shard_tensor cast layer_file_cache model_dir layer_name dev dt w) =
           Inl (TensorMissingError layer_name)"
  using assms by (simp add: load_shard_tensor_def safe_open_def get_tensor_def Let_def)

lemma unavailable_device_raises:
  assumes "layer_file_cache layer_name = Some file" and "devices w dev = Unavailable"
    and "files w (path_join model_dir file) = Some c" and "c layer_name = Some (v, d)"
  shows "fst (load_shard_tensor cast layer_file_cache model_dir layer_name dev dt w) =
           Inl (DeviceError dev)"
  using assms by (simp add: load_shard_tensor_def safe_open_def get_tensor_def Let_def)



end
